theory Spec2Isabelle
  imports Complex_Main
begin

section \<open>Embedding of ASP's SolverBase control algorithm\<close>

text \<open>
  The definitions below follow \<^verbatim>\<open>src/solverbase.py\<close>. Python floats are read as
  real numbers, Python integers as \<open>int\<close>, Python lists and numpy arrays as HOL
  lists. The language is Python 3: the module imports \<^verbatim>\<open>getoutput\<close> from
  \<^verbatim>\<open>subprocess\<close>, which Python 2 does not have. Every arithmetic operation on floats
  hands its exact result to a rounding function \<open>rd\<close>, which is a parameter: the
  identity is exact arithmetic, \<open>round_double\<close> is IEEE 754 double precision. Three
  things are taken exact: the sum in \<^verbatim>\<open>condition\<close>, the arrays the backend assembles,
  and the time that \<^verbatim>\<open>compute_dual\<close> counts down for its progress line. Calls
  into DOLFIN and dolfin-adjoint (form assembly, the nonlinear solve, mesh
  subdivision, the adjoint tape) are parameters of the definitions that use them.
  Every exception the modelled code can raise is a value of \<open>py_error\<close>.
\<close>

subsection \<open>Python primitives\<close>

datatype py_error =
    AssertionError | IndexError | ZeroDivisionError | ValueError | TypeError | NameError

text \<open>\<^verbatim>\<open>int(x)\<close> on a float drops the fractional part (rounds toward zero).\<close>

definition py_int :: "real \<Rightarrow> int" where
  "py_int x = (if 0 \<le> x then \<lfloor>x\<rfloor> else \<lceil>x\<rceil>)"

text \<open>\<^verbatim>\<open>xs[i]\<close>: an index below zero counts from the end, an index outside the list raises.\<close>

definition py_index :: "'a list \<Rightarrow> int \<Rightarrow> py_error + 'a" where
  "py_index xs i =
     (if 0 \<le> i \<and> i < int (length xs) then Inr (xs ! nat i)
      else if i < 0 \<and> - int (length xs) \<le> i then Inr (xs ! nat (int (length xs) + i))
      else Inl IndexError)"

text \<open>
  Rounding to double precision: the nearest number with a 53 bit significand, a tie
  going to the even significand. \<open>normalise\<close> scales a positive number into
  \<open>[2^52, 2^53)\<close> and returns the binary exponent it used; its first argument bounds
  the number of scalings, and 2200 covers the exponent range of doubles. Overflow and
  subnormal numbers are not modelled.
\<close>

definition round_half_even :: "real \<Rightarrow> int" where
  "round_half_even x =
     (let f = \<lfloor>x\<rfloor>; d = x - of_int f
      in if d < 1 / 2 then f
         else if d > 1 / 2 then f + 1
         else if even f then f else f + 1)"

text \<open>
  \<^verbatim>\<open>round(x)\<close> on a float with one argument: the nearest integer, as an \<^verbatim>\<open>int\<close>; a tie
  goes to the even neighbour.
\<close>

definition py_round :: "real \<Rightarrow> int" where
  "py_round x = round_half_even x"

fun normalise :: "nat \<Rightarrow> real \<Rightarrow> int \<Rightarrow> real \<times> int" where
  "normalise fuel m e =
     (if fuel = 0 then (m, e)
      else if m < 2 ^ 52 then normalise (fuel - 1) (2 * m) (e - 1)
      else if 2 ^ 53 \<le> m then normalise (fuel - 1) (m / 2) (e + 1)
      else (m, e))"

definition round_double :: "real \<Rightarrow> real" where
  "round_double x =
     (if x = 0 then 0
      else (case normalise 2200 \<bar>x\<bar> 0 of
              (m, e) \<Rightarrow> sgn x * of_int (round_half_even m) * 2 powi e))"

text \<open>
  C's \<^verbatim>\<open>fmod(x, y)\<close> for \<open>y \<noteq> 0\<close>: \<open>x - n * y\<close> with \<open>n\<close> the quotient \<open>x / y\<close> cut off
  toward zero. The result is a double whenever \<open>x\<close> and \<open>y\<close> are, so it is not rounded.
\<close>

definition c_fmod :: "real \<Rightarrow> real \<Rightarrow> real" where
  "c_fmod x y = x - of_int (py_int (x / y)) * y"

text \<open>
  \<^verbatim>\<open>divmod(vx, wx)\<close> on floats, as CPython computes it: the remainder is \<^verbatim>\<open>fmod(vx, wx)\<close>,
  the quotient is \<^verbatim>\<open>(vx - mod) / wx\<close>; a remainder whose sign differs from the
  divisor's is moved by \<open>wx\<close> and the quotient by one; the quotient is then snapped to
  the nearest whole number. A zero divisor raises.
\<close>

definition py_divmod :: "(real \<Rightarrow> real) \<Rightarrow> real \<Rightarrow> real \<Rightarrow> py_error + (real \<times> real)" where
  "py_divmod rd vx wx =
     (if wx = 0 then Inl ZeroDivisionError
      else
        (let mod0 = c_fmod vx wx;
             div0 = rd (rd (vx - mod0) / wx);
             shift = (mod0 \<noteq> 0 \<and> ((wx < 0) \<noteq> (mod0 < 0)));
             md = (if shift then rd (mod0 + wx) else mod0);
             dv = (if shift then rd (div0 - 1) else div0);
             floordiv =
               (if dv \<noteq> 0 then
                  (if rd (dv - of_int \<lfloor>dv\<rfloor>) > 1 / 2 then rd (of_int \<lfloor>dv\<rfloor> + 1)
                   else of_int \<lfloor>dv\<rfloor>)
                else 0)
         in Inr (floordiv, md)))"

subsection \<open>The stopping metric\<close>

text \<open>
  \<^verbatim>\<open>SolverBase.condition\<close>: \<^verbatim>\<open>c = abs(sum(ei.vector()))\<close>. The two functional values
  \<open>m\<close> and \<open>m_\<close> are accepted and not used.
\<close>

definition condition :: "real list \<Rightarrow> real \<Rightarrow> real \<Rightarrow> real" where
  "condition ei m m_prev = \<bar>sum_list ei\<bar>"

subsection \<open>Checkpoint configuration\<close>

record checkpoint_budget =
  steps :: int
  snaps_on_disk :: int
  snaps_in_ram :: int

text \<open>
  The part of \<^verbatim>\<open>adaptive_solve\<close> between the steady-state test and the forward
  solve. \<open>N\<close> is \<^verbatim>\<open>int(round((T - t0) / k))\<close>; \<^verbatim>\<open>round\<close> already returns an \<^verbatim>\<open>int\<close>, which
  \<^verbatim>\<open>int\<close> leaves as it is. The result is the argument record of \<^verbatim>\<open>adj_checkpointing\<close>,
  \<open>None\<close> when that call is skipped.
\<close>

definition step_count :: "(real \<Rightarrow> real) \<Rightarrow> real \<Rightarrow> real \<Rightarrow> real \<Rightarrow> py_error + int" where
  "step_count rd t0 T k =
     (if k = 0 then Inl ZeroDivisionError
      else Inr (py_round (rd (rd (T - t0) / k))))"

definition configure_checkpointing ::
    "(real \<Rightarrow> real) \<Rightarrow> real \<Rightarrow> int \<Rightarrow> py_error + checkpoint_budget option" where
  "configure_checkpointing rd onDisk N =
     (if \<not> (onDisk \<le> 1 \<or> onDisk \<ge> 0) then Inl AssertionError
      else if onDisk > 0 then
        Inr (Some \<lparr>steps = N,
                   snaps_on_disk = py_int (rd (onDisk * of_int N)),
                   snaps_in_ram = py_int (rd (rd (1 - onDisk) * of_int N))\<rparr>)
      else Inr None)"

definition adaptive_solve_checkpointing ::
    "(real \<Rightarrow> real) \<Rightarrow> bool \<Rightarrow> real \<Rightarrow> real \<Rightarrow> real \<Rightarrow> real \<Rightarrow>
     py_error + checkpoint_budget option" where
  "adaptive_solve_checkpointing rd steady_state onDisk t0 T k =
     (if \<not> steady_state then
        (case step_count rd t0 T k of
           Inl e \<Rightarrow> Inl e
         | Inr N \<Rightarrow> configure_checkpointing rd onDisk N)
      else Inr None)"

subsection \<open>Time step adjustment\<close>

text \<open>
  \<^verbatim>\<open>SolverBase.adjust_dt\<close>. The constant \<^verbatim>\<open>DOLFIN_EPS\<close> comes from DOLFIN and is
  the parameter \<open>eps\<close> here; \<open>rd\<close> is the rounding of the float arithmetic.
\<close>

definition adjust_dt ::
    "(real \<Rightarrow> real) \<Rightarrow> real \<Rightarrow> real \<Rightarrow> real \<Rightarrow> real \<Rightarrow> py_error + real" where
  "adjust_dt rd eps t0 T k =
     (case py_divmod rd (rd (T - t0)) k of
        Inl e \<Rightarrow> Inl e
      | Inr (d, r) \<Rightarrow>
          if r > eps then
            (if rd (d + 1) = 0 then Inl ZeroDivisionError
             else Inr (rd (rd (T - t0) / rd (d + 1))))
          else Inr k)"

text \<open>\<^verbatim>\<open>a % b\<close> on floats, the second component of \<^verbatim>\<open>divmod\<close>.\<close>

definition py_mod :: "(real \<Rightarrow> real) \<Rightarrow> real \<Rightarrow> real \<Rightarrow> py_error + real" where
  "py_mod rd a b = (case py_divmod rd a b of Inl e \<Rightarrow> Inl e | Inr (d, r) \<Rightarrow> Inr r)"

subsection \<open>The primal time loop\<close>

text \<open>
  What \<^verbatim>\<open>update\<close> can raise when it is called with a time: its progress line computes
  \<^verbatim>\<open>100 * t / problem.T\<close>, a division by zero when \<^verbatim>\<open>problem.T\<close> is \<open>0\<close>. Saving and
  timing are left to the backend.
\<close>

definition update :: "real \<Rightarrow> real \<Rightarrow> py_error + unit" where
  "update problem_T t = (if problem_T = 0 then Inl ZeroDivisionError else Inr ())"

text \<open>
  The \<^verbatim>\<open>while t < T - k / 2.\<close> loop of \<^verbatim>\<open>timeStepper\<close>. \<open>solve_step t w_prev\<close> stands for
  the boundary-condition update, \<^verbatim>\<open>pre_step\<close>, the nonlinear solve and \<^verbatim>\<open>post_step\<close> at
  the new time \<open>t\<close>; \<open>functional w\<close> for the assembled functional of a state. The
  accumulated functional is \<open>None\<close> when \<^verbatim>\<open>func\<close> is false. The last component counts
  the solves. Each pass ends with \<^verbatim>\<open>update\<close>. The loop need not end (a step \<open>k \<le> 0\<close>
  never reaches \<open>T\<close>), so the result is an option and \<open>None\<close> means that the loop runs
  forever.
\<close>

partial_function (option) timeStepper_loop ::
    "(real \<Rightarrow> real) \<Rightarrow> (real \<Rightarrow> 'w \<Rightarrow> 'w) \<Rightarrow> ('w \<Rightarrow> real) \<Rightarrow> real \<Rightarrow> real \<Rightarrow> real \<Rightarrow>
     real \<times> 'w \<times> real option \<times> nat \<Rightarrow>
     (py_error + real \<times> 'w \<times> real option \<times> nat) option" where
  "timeStepper_loop rd solve_step functional problem_T T k st =
     (case st of (t, w_prev, m, n) \<Rightarrow>
        if t < rd (T - rd (k / 2)) then
          (let t' = rd (t + k);
               w = solve_step t' w_prev;
               m' = map_option (\<lambda>v. rd (v + rd (k * functional w))) m
           in case update problem_T t' of
                Inl e \<Rightarrow> Some (Inl e)
              | Inr u \<Rightarrow>
                  timeStepper_loop rd solve_step functional problem_T T k (t', w, m', Suc n))
        else Some (Inr (t, w_prev, m, n)))"

text \<open>
  \<^verbatim>\<open>timeStepper\<close>: \<^verbatim>\<open>update\<close> for the initial condition, the first term of the
  functional, then the loop. \<open>problem_T\<close> is \<^verbatim>\<open>problem.T\<close>, which \<^verbatim>\<open>solve\<close> also passes
  as \<open>T\<close>.
\<close>

definition timeStepper ::
    "(real \<Rightarrow> real) \<Rightarrow> (real \<Rightarrow> 'w \<Rightarrow> 'w) \<Rightarrow> ('w \<Rightarrow> real) \<Rightarrow> bool \<Rightarrow> real \<Rightarrow>
     real \<Rightarrow> real \<Rightarrow> real \<Rightarrow> 'w \<Rightarrow>
     (py_error + real \<times> 'w \<times> real option \<times> nat) option" where
  "timeStepper rd solve_step functional func problem_T t T k w_init =
     (case update problem_T t of
        Inl e \<Rightarrow> Some (Inl e)
      | Inr u \<Rightarrow>
          timeStepper_loop rd solve_step functional problem_T T k
            (t, w_init, (if func then Some (rd (k * functional w_init)) else None), 0))"

subsection \<open>The dual sweep\<close>







subsection \<open>Error indicators\<close>

text \<open>
  \<^verbatim>\<open>ei.vector()[:] = a\<close> on arrays: an array of another length is refused.
\<close>

definition vec_assign :: "real list \<Rightarrow> real list \<Rightarrow> py_error + real list" where
  "vec_assign v a = (if length a = length v then Inr a else Inl ValueError)"

text \<open>
  \<^verbatim>\<open>build_error_indicators\<close>. \<open>ncells\<close> is the dimension of the piecewise constant
  space \<open>Z\<close>, so the fresh function \<open>ei\<close> is \<open>ncells\<close> zeros. In the unsteady branch
  the statement \<^verbatim>\<open>for i in xrange(len(wtape) - 1):\<close> looks up the name \<^verbatim>\<open>xrange\<close>, which
  Python 3 does not define, so the branch raises before the first pass of its loop.
  In the steady branch \<open>residual_steady w phi\<close> stands for the assembled array of
  \<^verbatim>\<open>weak_residual(problem, W, wtape[0], z * phi[0], ei_mode=True)\<close>.
\<close>

definition build_error_indicators ::
    "bool \<Rightarrow> ('w \<Rightarrow> 'adj \<Rightarrow> real list) \<Rightarrow> nat \<Rightarrow> 'adj list \<Rightarrow> 'w list \<Rightarrow>
     py_error + real list" where
  "build_error_indicators steady residual_steady ncells phi wtape =
     (let ei = replicate ncells 0 in
      if \<not> steady then Inl NameError
      else
        (case py_index wtape 0 of
           Inl e \<Rightarrow> Inl e
         | Inr w0 \<Rightarrow>
             (case py_index phi 0 of
                Inl e \<Rightarrow> Inl e
              | Inr p0 \<Rightarrow> vec_assign ei (residual_steady w0 p0))))"

subsection \<open>Cell marking\<close>

text \<open>
  \<^verbatim>\<open>adaptive_refine\<close>: the markers it computes, and the mesh the backend's \<^verbatim>\<open>refine\<close>
  returns for them. \<^verbatim>\<open>sorted(gamma, reverse=True)\<close> is the ascending sort reversed; the
  loop over the cells reads \<^verbatim>\<open>gamma[c.index()]\<close> for each cell in turn.
\<close>

definition adapt_n_of :: "(real \<Rightarrow> real) \<Rightarrow> nat \<Rightarrow> real \<Rightarrow> int" where
  "adapt_n_of rd ncells adaptRatio = py_int (rd (rd (real ncells * adaptRatio) - 1))"

definition cell_markers :: "(real \<Rightarrow> real) \<Rightarrow> real \<Rightarrow> real list \<Rightarrow> py_error + bool list" where
  "cell_markers rd adaptRatio ei =
     (let gamma = map abs ei;
          adapt_n = adapt_n_of rd (length gamma) adaptRatio
      in case py_index (rev (sort gamma)) adapt_n of
           Inl e \<Rightarrow> Inl e
         | Inr gamma_0 \<Rightarrow> Inr (map (\<lambda>g. g > gamma_0) gamma))"

definition adaptive_refine ::
    "(real \<Rightarrow> real) \<Rightarrow> ('mesh \<Rightarrow> bool list \<Rightarrow> 'mesh) \<Rightarrow> real \<Rightarrow> 'mesh \<Rightarrow> real list \<Rightarrow>
     py_error + 'mesh" where
  "adaptive_refine rd refine adaptRatio mesh ei =
     (case cell_markers rd adaptRatio ei of
        Inl e \<Rightarrow> Inl e
      | Inr markers \<Rightarrow> Inr (refine mesh markers))"

subsection \<open>The adaptive loop\<close>

record solver_options =
  maxAdapts :: int
  adaptTOL :: real
  adaptRatio :: real
  steady_state :: bool

text \<open>
  What the loop needs from the problem and the backend: \<open>adaptive_solve mesh k\<close> gives
  the functional value and the error indicators of one primal and dual pass,
  \<open>refine\<close> is the backend's subdivision, \<open>time_step\<close> is the problem's optional step
  rule (\<open>None\<close> when the problem has no \<^verbatim>\<open>time_step\<close>).
\<close>

record 'mesh collaborators =
  adaptive_solve :: "'mesh \<Rightarrow> real \<Rightarrow> py_error + (real \<times> real list)"
  refine :: "'mesh \<Rightarrow> bool list \<Rightarrow> 'mesh"
  time_step :: "('mesh \<Rightarrow> real) option"

text \<open>
  \<^verbatim>\<open>which_mesh\<close>: \<^verbatim>\<open>num = map(int, str(i))\<close> is an iterator in Python 3, so \<^verbatim>\<open>num[-1]\<close>
  raises; only \<open>i = 0\<close> returns before that subscript is evaluated.
\<close>

definition which_mesh :: "int \<Rightarrow> py_error + string" where
  "which_mesh i = (if i = 0 then Inr ''initial'' else Inl TypeError)"

text \<open>The lines the loop prints.\<close>

datatype message =
    Solving_on_mesh string
  | Err_est real
  | Refining_mesh
  | Warning_reached_max real

function adaptivity_loop ::
    "solver_options \<Rightarrow> 'mesh collaborators \<Rightarrow> (real \<Rightarrow> real) \<Rightarrow> real \<Rightarrow> real \<Rightarrow> real \<Rightarrow>
     int \<Rightarrow> real \<Rightarrow> real \<Rightarrow> 'mesh \<Rightarrow> real \<Rightarrow> message list \<Rightarrow>
     py_error + (int \<times> real \<times> 'mesh \<times> real \<times> message list)" where
  "adaptivity_loop opts env rd eps t0 T i m COND mesh k out =
     (if i \<le> maxAdapts opts \<and> COND > adaptTOL opts then
        (case which_mesh i of
           Inl e \<Rightarrow> Inl e
         | Inr name \<Rightarrow>
             (case adaptive_solve env mesh k of
                Inl e \<Rightarrow> Inl e
              | Inr (m', ei) \<Rightarrow>
                  (case adaptive_refine rd (refine env) (adaptRatio opts) mesh ei of
                     Inl e \<Rightarrow> Inl e
                   | Inr mesh' \<Rightarrow>
                       (case (case time_step env of
                                Some rule \<Rightarrow>
                                  if \<not> steady_state opts
                                  then adjust_dt rd eps t0 T (rule mesh')
                                  else Inr k
                              | None \<Rightarrow> Inr k) of
                          Inl e \<Rightarrow> Inl e
                        | Inr k' \<Rightarrow>
                            adaptivity_loop opts env rd eps t0 T (i + 1) m'
                              (condition ei m' m) mesh' k'
                              (out @ [Solving_on_mesh name, Err_est (condition ei m' m),
                                      Refining_mesh])))))
      else Inr (i, COND, mesh, k, out))"
  by pat_completeness auto
termination
  by (relation "measure (\<lambda>(opts, env, rd, eps, t0, T, i, m, COND, mesh, k, out).
                  nat (maxAdapts opts + 1 - i))") auto

text \<open>
  \<^verbatim>\<open>SolverBase.adaptivity\<close>: the loop from \<open>i = 0\<close>, \<open>m = 0\<close>, \<open>COND = 1\<close>, then the
  warning, then the mesh and the step. The third component is what was printed, the
  fourth the number of passes through the loop body.
\<close>

definition adaptivity ::
    "solver_options \<Rightarrow> 'mesh collaborators \<Rightarrow> (real \<Rightarrow> real) \<Rightarrow> real \<Rightarrow>
     'mesh \<Rightarrow> real \<Rightarrow> real \<Rightarrow> real \<Rightarrow>
     py_error + ('mesh \<times> real \<times> message list \<times> int)" where
  "adaptivity opts env rd eps mesh T t0 k =
     (case adaptivity_loop opts env rd eps t0 T 0 0 1 mesh k [] of
        Inl e \<Rightarrow> Inl e
      | Inr (i, COND, mesh', k', out) \<Rightarrow>
          Inr (mesh', k',
               (if i > maxAdapts opts \<and> COND > adaptTOL opts
                then out @ [Warning_reached_max COND] else out),
               i))"

subsection \<open>Auxiliary functions for the statements and proofs\<close>



declare adaptivity_loop.simps [simp del]

declare normalise.simps [simp del]

section \<open>Properties\<close>

subsection \<open>Helper facts about the Python primitives\<close>

lemma py_int_nonneg: "0 \<le> x \<Longrightarrow> py_int x = \<lfloor>x\<rfloor>"
  by (simp add: py_int_def)

lemma floor_split_sum:
  fixes x :: real
  shows "\<lfloor>x\<rfloor> + \<lfloor>of_int N - x\<rfloor> = (if x = of_int \<lfloor>x\<rfloor> then N else N - 1)"
proof (cases "x = of_int \<lfloor>x\<rfloor>")
  case True
  then obtain z :: int where z: "x = of_int z" by blast
  have "of_int N - x = (of_int (N - z) :: real)" using z by simp
  then have "\<lfloor>of_int N - x\<rfloor> = N - z" by (metis floor_of_int)
  moreover have "\<lfloor>x\<rfloor> = z" using z by simp
  ultimately have "\<lfloor>x\<rfloor> + \<lfloor>of_int N - x\<rfloor> = N" by simp
  with True show ?thesis by presburger
next
  case False
  have le: "of_int \<lfloor>x\<rfloor> \<le> x" by (rule of_int_floor_le)
  have ne: "of_int \<lfloor>x\<rfloor> \<noteq> x" using False by (rule not_sym)
  have lt: "of_int \<lfloor>x\<rfloor> < x" unfolding less_le using le ne by (rule conjI)
  have ub: "x < of_int \<lfloor>x\<rfloor> + 1" by linarith
  have "\<lfloor>of_int N - x\<rfloor> = N - \<lfloor>x\<rfloor> - 1"
  proof (rule floor_unique)
    show "of_int (N - \<lfloor>x\<rfloor> - 1) \<le> of_int N - x"
      using ub by (simp only: of_int_diff of_int_1)
    show "of_int N - x < of_int (N - \<lfloor>x\<rfloor> - 1) + 1"
      using lt by (simp only: of_int_diff of_int_1)
  qed
  with False show ?thesis by simp
qed

lemma round_half_even_nonneg: "0 \<le> x \<Longrightarrow> 0 \<le> round_half_even x"
  by (simp add: round_half_even_def Let_def)

lemma normalise_pos: "0 < m \<Longrightarrow> 0 < fst (normalise fuel m e)"
proof (induction fuel m e rule: normalise.induct)
  case (1 fuel m e)
  show ?case
  proof (cases "fuel = 0")
    case True
    then show ?thesis using "1.prems" by (subst normalise.simps) simp
  next
    case False
    show ?thesis
    proof (cases "m < 2 ^ 52")
      case True
      have "0 < fst (normalise (fuel - 1) (2 * m) (e - 1))"
        using "1.IH"(1) [OF False True] "1.prems" by simp
      then show ?thesis using False True by (subst normalise.simps) simp
    next
      case big: False
      show ?thesis
      proof (cases "2 ^ 53 \<le> m")
        case True
        have "0 < fst (normalise (fuel - 1) (m / 2) (e + 1))"
          using "1.IH"(2) [OF False big True] "1.prems" by simp
        then show ?thesis using False big True by (subst normalise.simps) simp
      next
        case False
        then show ?thesis using \<open>fuel \<noteq> 0\<close> big "1.prems" by (subst normalise.simps) simp
      qed
    qed
  qed
qed

lemma round_double_nonneg: "0 \<le> x \<Longrightarrow> 0 \<le> round_double x"
proof (cases "x = 0")
  case True
  then show ?thesis by (simp add: round_double_def)
next
  case False
  assume "0 \<le> x"
  with False have pos: "0 < x" by simp
  obtain m e where ne: "normalise 2200 x 0 = (m, e)" by (cases "normalise 2200 x 0")
  have "0 < fst (normalise 2200 x 0)" using pos by (rule normalise_pos)
  then have "0 \<le> m" using ne by simp
  then have "0 \<le> (of_int (round_half_even m) :: real)"
    using round_half_even_nonneg by simp
  moreover have "0 \<le> (2 :: real) powi e" by simp
  ultimately have "0 \<le> of_int (round_half_even m) * (2 :: real) powi e" by (rule mult_nonneg_nonneg)
  then show ?thesis using pos False by (simp add: round_double_def ne)
qed

text \<open>Facts that evaluate double rounding at given numbers.\<close>

lemmas round_eval =
  round_double_def normalise.simps round_half_even_def power_int_minus Let_def py_int_def
  py_round_def

subsection \<open>The stopping metric\<close>

lemma condition_le_sum_abs: "condition ei m m_prev \<le> sum_list (map abs ei)"
  unfolding condition_def by (rule sum_list_abs)

text \<open>
  Claim C1 says that the default stopping metric is the sum of the absolute values of
  the indicator entries. \<^verbatim>\<open>condition\<close> takes the absolute value of the sum instead,
  which is only a lower bound of it: on the field \<open>[1, -1]\<close> the metric is \<open>0\<close> while
  the sum of the absolute values is \<open>2\<close>. The warning printed by \<^verbatim>\<open>adaptivity\<close> labels
  the same number \<^verbatim>\<open>sum(abs(EI))\<close>.
\<close>

theorem condition_abs_of_sum_at_mixed_signs:
  "condition [1, -1] 0 0 = 0 \<and> sum_list (map abs [1, -1 :: real]) = 2"
  by (simp add: condition_def)

subsection \<open>Checkpoint configuration\<close>

lemma configure_checkpointing_exact_sum:
  assumes "0 \<le> N" and "0 < f" and "f \<le> 1"
  shows "\<exists>b. configure_checkpointing id f N = Inr (Some b)
           \<and> snaps_on_disk b = \<lfloor>f * of_int N\<rfloor>
           \<and> snaps_in_ram b = \<lfloor>(1 - f) * of_int N\<rfloor>
           \<and> snaps_in_ram b + snaps_on_disk b =
               (if f * of_int N = of_int \<lfloor>f * of_int N\<rfloor> then N else N - 1)"
proof -
  have a: "0 \<le> f * of_int N" using assms by simp
  have b: "0 \<le> (1 - f) * of_int N" using assms by simp
  have c: "(1 - f) * of_int N = of_int N - f * of_int N" by (simp add: algebra_simps)
  have "configure_checkpointing id f N =
          Inr (Some \<lparr>steps = N, snaps_on_disk = \<lfloor>f * of_int N\<rfloor>,
                     snaps_in_ram = \<lfloor>(1 - f) * of_int N\<rfloor>\<rparr>)"
    using assms a b by (simp add: configure_checkpointing_def py_int_def)
  moreover have "\<lfloor>(1 - f) * of_int N\<rfloor> + \<lfloor>f * of_int N\<rfloor> =
             (if f * of_int N = of_int \<lfloor>f * of_int N\<rfloor> then N else N - 1)"
    unfolding c using floor_split_sum [of "f * of_int N" N] by (simp add: add.commute)
  ultimately show ?thesis by simp
qed

lemma configure_checkpointing_double_three_tenths:
  "configure_checkpointing round_double (5404319552844595 / 2 ^ 54) 10 =
     Inr (Some \<lparr>steps = 10, snaps_on_disk = 3, snaps_in_ram = 7\<rparr>)"
  by (simp add: configure_checkpointing_def round_eval)

text \<open>
  Where exact and double arithmetic part: hundred steps with the double \<open>0.29\<close> give
  28 snapshots on disk and 71 in memory, because \<open>0.29 * 100\<close> rounds to
  \<open>28.999999999999996\<close>.
\<close>

lemma configure_checkpointing_double_29_percent:
  "round_double (29 / 100) = 5224175567749775 / 2 ^ 54
   \<and> configure_checkpointing round_double (5224175567749775 / 2 ^ 54) 100 =
       Inr (Some \<lparr>steps = 100, snaps_on_disk = 28, snaps_in_ram = 71\<rparr>)"
  by (simp add: configure_checkpointing_def round_eval)

text \<open>
  Claim C3, amended: for a step count \<open>N \<ge> 0\<close> and a fraction \<open>f\<close> in \<open>[0, 1]\<close>, a budget
  is configured exactly when \<open>f > 0\<close>; the snapshots on disk are the floor of the
  rounded product \<open>f * N\<close>, the snapshots in memory the floor of the rounded product
  of the rounded \<open>1 - f\<close> and \<open>N\<close>, each count cut off on its own, so the two need not
  add up to \<open>N\<close>. In exact arithmetic they add up to \<open>N\<close> when \<open>f * N\<close> is a whole number
  and to \<open>N - 1\<close> otherwise. In double precision ten steps with fraction \<open>0.3\<close> give
  three snapshots on disk and seven in memory.
\<close>

theorem checkpoint_budget_floors:
  assumes "0 \<le> N" and "0 \<le> f" and "f \<le> 1" and "\<forall>x. 0 \<le> x \<longrightarrow> 0 \<le> rd x"
  shows "configure_checkpointing rd f N =
           (if 0 < f
            then Inr (Some \<lparr>steps = N, snaps_on_disk = \<lfloor>rd (f * of_int N)\<rfloor>,
                            snaps_in_ram = \<lfloor>rd (rd (1 - f) * of_int N)\<rfloor>\<rparr>)
            else Inr None)
         \<and> (0 < f \<longrightarrow>
              (\<exists>b. configure_checkpointing id f N = Inr (Some b)
                 \<and> snaps_in_ram b + snaps_on_disk b =
                     (if f * of_int N = of_int \<lfloor>f * of_int N\<rfloor> then N else N - 1)))
         \<and> configure_checkpointing round_double (5404319552844595 / 2 ^ 54) 10 =
             Inr (Some \<lparr>steps = 10, snaps_on_disk = 3, snaps_in_ram = 7\<rparr>)"
proof (intro conjI impI)
  have a: "0 \<le> rd (f * of_int N)" using assms by simp
  have "0 \<le> rd (1 - f)" using assms by simp
  then have b: "0 \<le> rd (rd (1 - f) * of_int N)" using assms by simp
  show "configure_checkpointing rd f N =
           (if 0 < f
            then Inr (Some \<lparr>steps = N, snaps_on_disk = \<lfloor>rd (f * of_int N)\<rfloor>,
                            snaps_in_ram = \<lfloor>rd (rd (1 - f) * of_int N)\<rfloor>\<rparr>)
            else Inr None)"
    using assms(2,3) a b by (simp add: configure_checkpointing_def py_int_def)
  show "\<exists>b. configure_checkpointing id f N = Inr (Some b)
                 \<and> snaps_in_ram b + snaps_on_disk b =
                     (if f * of_int N = of_int \<lfloor>f * of_int N\<rfloor> then N else N - 1)"
    if "0 < f"
    using configure_checkpointing_exact_sum [OF assms(1) that assms(3)] by blast
  show "configure_checkpointing round_double (5404319552844595 / 2 ^ 54) 10 =
             Inr (Some \<lparr>steps = 10, snaps_on_disk = 3, snaps_in_ram = 7\<rparr>)"
    by (rule configure_checkpointing_double_three_tenths)
qed

text \<open>
  The theorem at double rounding, ten steps and the double \<open>0.3\<close>: the rounded
  product \<open>0.3 * 10\<close> is \<open>3\<close>, the rounded \<open>1 - 0.3\<close> times ten is \<open>7\<close>.
\<close>

theorem checkpoint_budget_floors_witness:
  "(0 :: int) \<le> 10 \<and> (0 :: real) < 5404319552844595 / 2 ^ 54
   \<and> (5404319552844595 / 2 ^ 54 :: real) \<le> 1
   \<and> round_double (5404319552844595 / 2 ^ 54 * of_int 10) = 3
   \<and> round_double (round_double (1 - 5404319552844595 / 2 ^ 54) * of_int 10) = 7
   \<and> configure_checkpointing round_double (5404319552844595 / 2 ^ 54) 10 =
       Inr (Some \<lparr>steps = 10,
                  snaps_on_disk = \<lfloor>round_double (5404319552844595 / 2 ^ 54 * of_int 10)\<rfloor>,
                  snaps_in_ram =
                    \<lfloor>round_double (round_double (1 - 5404319552844595 / 2 ^ 54) * of_int 10)\<rfloor>\<rparr>)
   \<and> (\<exists>b. configure_checkpointing id (5404319552844595 / 2 ^ 54) 10 = Inr (Some b)
          \<and> snaps_in_ram b + snaps_on_disk b = 9)"
proof -
  have nn: "\<forall>x. 0 \<le> x \<longrightarrow> 0 \<le> round_double x" using round_double_nonneg by blast
  have r1: "round_double (5404319552844595 / 2 ^ 54 * of_int 10) = 3"
    by (simp add: round_eval)
  have r2: "round_double (round_double (1 - 5404319552844595 / 2 ^ 54) * of_int 10) = 7"
    by (simp add: round_eval)
  have f0: "(0 :: real) < 5404319552844595 / 2 ^ 54" by simp
  have f1: "(5404319552844595 / 2 ^ 54 :: real) \<le> 1" by simp
  have nw: "(5404319552844595 / 2 ^ 54 :: real) * of_int 10
              \<noteq> of_int \<lfloor>(5404319552844595 / 2 ^ 54 :: real) * of_int 10\<rfloor>"
    by simp
  note inst = checkpoint_budget_floors
      [of 10 "5404319552844595 / 2 ^ 54" round_double, OF _ _ f1 nn]
  have "configure_checkpointing round_double (5404319552844595 / 2 ^ 54) 10 =
       Inr (Some \<lparr>steps = 10,
                  snaps_on_disk = \<lfloor>round_double (5404319552844595 / 2 ^ 54 * of_int 10)\<rfloor>,
                  snaps_in_ram =
                    \<lfloor>round_double (round_double (1 - 5404319552844595 / 2 ^ 54) * of_int 10)\<rfloor>\<rparr>)"
    using inst f0 by simp
  moreover have "\<exists>b. configure_checkpointing id (5404319552844595 / 2 ^ 54) 10 = Inr (Some b)
          \<and> snaps_in_ram b + snaps_on_disk b = 9"
    using inst f0 nw by simp
  ultimately show ?thesis using r1 r2 f0 f1 by simp
qed

text \<open>
  The sum invariant of claim C3 as stated fails: ten steps with fraction \<open>0.25\<close> give
  two snapshots on disk and seven in memory, in double precision as in exact
  arithmetic.
\<close>

theorem checkpoint_budget_sum_counterexample:
  "configure_checkpointing round_double (1 / 4) 10 =
     Inr (Some \<lparr>steps = 10, snaps_on_disk = 2, snaps_in_ram = 7\<rparr>)
   \<and> (7 :: int) + 2 \<noteq> 10"
  by (simp add: configure_checkpointing_def round_eval)

lemma configure_checkpointing_never_asserts:
  "configure_checkpointing rd f N \<noteq> Inl AssertionError"
  by (simp add: configure_checkpointing_def)

text \<open>
  Claim C6 says that a fraction outside \<open>[0, 1]\<close> makes \<^verbatim>\<open>adaptive_solve\<close> fail on its
  assertion. The assertion is \<^verbatim>\<open>onDisk <= 1. or onDisk >= 0.\<close>, which every number
  satisfies: with fraction \<open>1.5\<close> and ten steps the checkpointing call is made, with
  fifteen snapshots on disk and minus five in memory. This is so in double precision,
  where the step \<open>0.1\<close> is the double \<open>3602879701896397 / 2^55\<close>, and in exact
  arithmetic.
\<close>

theorem checkpoint_assertion_passes_outside_range:
  "adaptive_solve_checkpointing round_double False (3 / 2) 0 1 (3602879701896397 / 2 ^ 55) =
     Inr (Some \<lparr>steps = 10, snaps_on_disk = 15, snaps_in_ram = - 5\<rparr>)
   \<and> adaptive_solve_checkpointing id False (3 / 2) 0 1 (1 / 10) =
     Inr (Some \<lparr>steps = 10, snaps_on_disk = 15, snaps_in_ram = - 5\<rparr>)"
  by (simp add: adaptive_solve_checkpointing_def step_count_def configure_checkpointing_def
      round_eval)

subsection \<open>The dual sweep\<close>









subsection \<open>Time step adjustment\<close>

text \<open>With exact arithmetic \<^verbatim>\<open>divmod\<close> is the floor quotient and its remainder.\<close>

lemma py_divmod_exact:
  assumes "b \<noteq> 0"
  shows "py_divmod id a b = Inr (of_int \<lfloor>a / b\<rfloor>, a - of_int \<lfloor>a / b\<rfloor> * b)"
proof -
  define q where "q = a / b"
  define f where "f = \<lfloor>q\<rfloor>"
  have a: "a = q * b" using assms by (simp add: q_def)
  have f1: "of_int f \<le> q" and f2: "q < of_int f + 1" unfolding f_def by linarith+
  have ff: "\<lfloor>(of_int f :: real)\<rfloor> = f" by simp
  have snap: "(if (of_int f :: real) \<noteq> 0
               then (if id (of_int f - of_int \<lfloor>(of_int f :: real)\<rfloor>) > (1 / 2 :: real)
                     then id (of_int \<lfloor>(of_int f :: real)\<rfloor> + 1) else of_int \<lfloor>(of_int f :: real)\<rfloor>)
               else 0) = (of_int f :: real)"
    by (simp add: ff)
  show ?thesis
  proof (cases "py_int q = f")
    case True
    have m0: "c_fmod a b = (q - of_int f) * b"
      unfolding c_fmod_def q_def [symmetric] True using a by (simp add: algebra_simps)
    have noshift: "\<not> (c_fmod a b \<noteq> 0 \<and> ((b < 0) \<noteq> (c_fmod a b < 0)))"
    proof (cases "b < 0")
      case True
      have "0 \<le> q - of_int f" using f1 by simp
      then have "(q - of_int f) * b \<le> 0" using True by (simp add: mult_nonneg_nonpos)
      then show ?thesis using True m0 by auto
    next
      case False
      then have "0 < b" using assms by simp
      moreover have "0 \<le> q - of_int f" using f1 by simp
      ultimately have "0 \<le> (q - of_int f) * b" by simp
      then show ?thesis using False m0 by auto
    qed
    have d0: "(a - c_fmod a b) / b = of_int f"
      unfolding m0 using a assms by (simp add: algebra_simps)
    have "py_divmod id a b = Inr (of_int f, c_fmod a b)"
      using assms noshift d0 by (simp add: py_divmod_def Let_def)
    moreover have "c_fmod a b = a - of_int f * b"
      unfolding m0 using a by (simp add: algebra_simps)
    ultimately show ?thesis unfolding f_def q_def by simp
  next
    case False
    then have neg: "q < 0" and pi: "py_int q = \<lceil>q\<rceil>" and nonint: "\<lceil>q\<rceil> \<noteq> f"
      unfolding py_int_def f_def by (auto split: if_splits)
    have c: "\<lceil>q\<rceil> = f + 1" using nonint f1 f2 unfolding f_def by linarith
    have lt: "of_int f < q" using nonint f1 unfolding f_def
      by (metis ceiling_of_int less_eq_real_def)
    have m0: "c_fmod a b = (q - of_int f - 1) * b"
      unfolding c_fmod_def q_def [symmetric] pi c using a by (simp add: algebra_simps)
    have fr: "q - of_int f - 1 < 0" using f2 by simp
    have shift: "c_fmod a b \<noteq> 0 \<and> ((b < 0) \<noteq> (c_fmod a b < 0))"
    proof (cases "b < 0")
      case True
      then have "0 < (q - of_int f - 1) * b" using fr by (simp add: mult_neg_neg)
      then show ?thesis using True m0 by auto
    next
      case False
      then have "0 < b" using assms by simp
      then have "(q - of_int f - 1) * b < 0" using fr by (simp add: mult_neg_pos)
      then show ?thesis using False m0 by auto
    qed
    have "a - (q - of_int f - 1) * b = (of_int f + 1) * b"
      using a by (simp add: algebra_simps)
    then have d0: "(a - c_fmod a b) / b - 1 = of_int f"
      unfolding m0 using assms by simp
    have md: "c_fmod a b + b = a - of_int f * b"
      unfolding m0 using a by (simp add: algebra_simps)
    have "py_divmod id a b = Inr (of_int f, c_fmod a b + b)"
      using assms shift d0 by (simp add: py_divmod_def Let_def)
    then show ?thesis unfolding md f_def q_def by simp
  qed
qed

lemma py_divmod_pos:
  assumes "0 < k"
  shows "py_divmod id a k = Inr (of_int \<lfloor>a / k\<rfloor>, a - of_int \<lfloor>a / k\<rfloor> * k)"
    and "0 \<le> a - of_int \<lfloor>a / k\<rfloor> * k"
    and "a - of_int \<lfloor>a / k\<rfloor> * k < k"
proof -
  show "py_divmod id a k = Inr (of_int \<lfloor>a / k\<rfloor>, a - of_int \<lfloor>a / k\<rfloor> * k)"
    using assms by (intro py_divmod_exact) simp
  have "of_int \<lfloor>a / k\<rfloor> \<le> a / k" by (rule of_int_floor_le)
  then have "of_int \<lfloor>a / k\<rfloor> * k \<le> a"
    using assms pos_le_divide_eq [of k "of_int \<lfloor>a / k\<rfloor>" a] by blast
  then show "0 \<le> a - of_int \<lfloor>a / k\<rfloor> * k" by simp
  have "a / k < of_int \<lfloor>a / k\<rfloor> + 1" by linarith
  then have "a < (of_int \<lfloor>a / k\<rfloor> + 1) * k"
    using assms pos_divide_less_eq [of k a "of_int \<lfloor>a / k\<rfloor> + 1"] by blast
  then show "a - of_int \<lfloor>a / k\<rfloor> * k < k" by (simp add: algebra_simps)
qed

lemma adjust_dt_divides:
  assumes "t0 < T" and "0 < k" and "0 \<le> eps"
  shows "\<exists>k' d r. adjust_dt id eps t0 T k = Inr k' \<and> 0 < k' \<and> k' \<le> k
           \<and> py_divmod id (T - t0) k' = Inr (d, r) \<and> 0 \<le> r \<and> r \<le> eps"
proof -
  let ?a = "T - t0"
  let ?d = "\<lfloor>?a / k\<rfloor>"
  let ?r = "?a - of_int ?d * k"
  have a: "0 < ?a" using assms by simp
  note dm = py_divmod_pos [OF assms(2), of ?a]
  show ?thesis
  proof (cases "?r > eps")
    case False
    then have "adjust_dt id eps t0 T k = Inr k" by (simp add: adjust_dt_def dm(1))
    with False dm assms show ?thesis by auto
  next
    case True
    have d0: "0 \<le> ?d" using a assms by simp
    then have d1: "0 < (of_int ?d :: real) + 1" by linarith
    have nz: "(of_int ?d :: real) + 1 \<noteq> 0" using d1 by simp
    define k' where "k' = ?a / (of_int ?d + 1)"
    have eq: "adjust_dt id eps t0 T k = Inr k'"
      using True nz by (simp add: adjust_dt_def dm(1) k'_def)
    have pos: "0 < k'" using a d1 by (simp add: k'_def)
    have "?a < (of_int ?d + 1) * k" using dm(3) by (simp add: algebra_simps)
    then have le: "k' \<le> k" using d1 by (simp add: k'_def pos_divide_le_eq mult.commute)
    have prod: "of_int (?d + 1) * k' = ?a" using nz by (simp add: k'_def)
    have "?a / k' = of_int (?d + 1) * k' / k'" by (simp only: prod)
    also have "\<dots> = of_int (?d + 1)" using pos by simp
    finally have q: "?a / k' = of_int (?d + 1)" .
    have fl: "\<lfloor>?a / k'\<rfloor> = ?d + 1" unfolding q by (rule floor_of_int)
    have "py_divmod id ?a k' = Inr (of_int (?d + 1), ?a - of_int (?d + 1) * k')"
      using py_divmod_pos(1) [OF pos, of ?a] by (simp only: fl)
    then have "py_divmod id ?a k' = Inr (of_int (?d + 1), 0)" by (simp only: prod diff_self)
    with eq pos le assms(3) show ?thesis by blast
  qed
qed

lemma adjust_dt_at_example:
  "adjust_dt id (3 / 10 ^ 16) 0 1 (3 / 10) = Inr (1 / 4)"
  by (simp add: adjust_dt_def py_divmod_def c_fmod_def py_int_def Let_def)

text \<open>
  Evaluations in double precision. The literals \<open>0.1\<close> and \<open>0.3\<close> denote the doubles
  \<open>3602879701896397 / 2^55\<close> and \<open>5404319552844595 / 2^54\<close>; \<open>1000 / 3\<close> rounds to
  \<open>5864062014805333 / 2^44\<close>. The tolerance is \<open>3e-16\<close>, the value of \<^verbatim>\<open>DOLFIN_EPS\<close>.
\<close>

lemmas double_eval =
  adjust_dt_def py_mod_def py_divmod_def c_fmod_def py_int_def Let_def
  round_double_def normalise.simps round_half_even_def power_int_minus

lemma round_double_tenth: "round_double (1 / 10) = 3602879701896397 / 2 ^ 55"
  by (simp add: double_eval)

lemma round_double_three_tenths: "round_double (3 / 10) = 5404319552844595 / 2 ^ 54"
  by (simp add: double_eval)

lemma adjust_dt_double_tenth:
  "adjust_dt round_double (3 / 10 ^ 16) 0 1 (3602879701896397 / 2 ^ 55)
     = Inr (3602879701896397 / 2 ^ 55)"
  by (simp add: double_eval)

lemma py_mod_double_tenth:
  "py_mod round_double (1 - 0) (3602879701896397 / 2 ^ 55) = Inr (3602879701896395 / 2 ^ 55)"
  by (simp add: double_eval)

lemma adjust_dt_double_three_tenths:
  "adjust_dt round_double (3 / 10 ^ 16) 0 1 (5404319552844595 / 2 ^ 54) = Inr (1 / 4)"
  by (simp add: double_eval)

lemma adjust_dt_double_quarter:
  "adjust_dt round_double (3 / 10 ^ 16) 0 1 (1 / 4) = Inr (1 / 4)"
  by (simp add: double_eval)

lemma py_mod_double_quarter: "py_mod round_double (1 - 0) (1 / 4) = Inr 0"
  by (simp add: double_eval)

lemma adjust_dt_double_1000_400:
  "adjust_dt round_double (3 / 10 ^ 16) 0 1000 400 = Inr (5864062014805333 / 2 ^ 44)"
  by (simp add: double_eval)

lemma adjust_dt_double_1000_again:
  "adjust_dt round_double (3 / 10 ^ 16) 0 1000 (5864062014805333 / 2 ^ 44) = Inr 250"
  by (simp add: double_eval)

text \<open>
  Claim C7, amended: in exact arithmetic, for \<open>T > t0\<close> and \<open>k > 0\<close> (and a tolerance
  \<open>eps \<ge> 0\<close> in the place of \<^verbatim>\<open>DOLFIN_EPS\<close>), \<^verbatim>\<open>adjust_dt\<close> returns a positive step
  \<open>k' \<le> k\<close> for which the remainder of \<open>T - t0\<close> modulo \<open>k'\<close> is at most \<open>eps\<close>, hence
  below every tolerance larger than \<open>eps\<close>. The spec's example holds in double
  precision as well: \<open>t0 = 0\<close>, \<open>T = 1\<close>, \<open>k = 0.3\<close> give \<open>k' = 0.25\<close> with remainder \<open>0\<close>.
\<close>

theorem adjust_dt_even_division:
  assumes "t0 < T" and "0 < k" and "0 \<le> eps"
  shows "(\<exists>k' r. adjust_dt id eps t0 T k = Inr k' \<and> 0 < k' \<and> k' \<le> k
             \<and> py_mod id (T - t0) k' = Inr r \<and> 0 \<le> r \<and> r \<le> eps
             \<and> (\<forall>\<epsilon>. eps < \<epsilon> \<longrightarrow> r < \<epsilon>))
         \<and> adjust_dt round_double (3 / 10 ^ 16) 0 1 (round_double (3 / 10)) = Inr (1 / 4)
         \<and> py_mod round_double (1 - 0) (1 / 4) = Inr 0"
proof -
  from adjust_dt_divides [OF assms] obtain k' d r where
    h: "adjust_dt id eps t0 T k = Inr k'" "0 < k'" "k' \<le> k"
       "py_divmod id (T - t0) k' = Inr (d, r)" "0 \<le> r" "r \<le> eps" by blast
  have "py_mod id (T - t0) k' = Inr r" by (simp add: py_mod_def h(4))
  moreover have "\<forall>\<epsilon>. eps < \<epsilon> \<longrightarrow> r < \<epsilon>" using h(6) by auto
  ultimately have "\<exists>k' r. adjust_dt id eps t0 T k = Inr k' \<and> 0 < k' \<and> k' \<le> k
             \<and> py_mod id (T - t0) k' = Inr r \<and> 0 \<le> r \<and> r \<le> eps
             \<and> (\<forall>\<epsilon>. eps < \<epsilon> \<longrightarrow> r < \<epsilon>)"
    using h by blast
  moreover have "adjust_dt round_double (3 / 10 ^ 16) 0 1 (round_double (3 / 10)) = Inr (1 / 4)"
    unfolding round_double_three_tenths by (rule adjust_dt_double_three_tenths)
  ultimately show ?thesis using py_mod_double_quarter by blast
qed

text \<open>In exact arithmetic the spec's example gives four steps of \<open>0.25\<close> as well.\<close>

theorem adjust_dt_even_division_witness:
  "(0 :: real) < 1 \<and> (0 :: real) < 3 / 10 \<and> (0 :: real) \<le> 3 / 10 ^ 16
   \<and> (\<exists>r. adjust_dt id (3 / 10 ^ 16) 0 1 (3 / 10) = Inr (1 / 4)
          \<and> py_mod id (1 - 0) (1 / 4) = Inr r \<and> r \<le> 3 / 10 ^ 16)"
proof -
  from adjust_dt_even_division [of 0 1 "3 / 10" "3 / 10 ^ 16"]
  obtain k' r where h: "adjust_dt id (3 / 10 ^ 16) 0 1 (3 / 10) = Inr k'"
      "py_mod id (1 - 0) k' = Inr r" "r \<le> 3 / 10 ^ 16"
    by auto
  from h(1) have "k' = 1 / 4" unfolding adjust_dt_at_example by simp
  with h show ?thesis by auto
qed

text \<open>
  Claim C7 as stated fails in double precision: for \<open>t0 = 0\<close>, \<open>T = 1\<close> and \<open>k = 0.1\<close>
  the quotient of \<^verbatim>\<open>divmod\<close> is \<open>9\<close> and its remainder is almost \<open>0.1\<close>, so the step
  returned is \<open>1 / 10\<close> rounded, the double \<open>0.1\<close> again, and the remainder of \<open>T - t0\<close>
  modulo that step is \<open>0.09999999999999995\<close>, not a small number.
\<close>

theorem adjust_dt_remainder_counterexample:
  "round_double (1 / 10) = 3602879701896397 / 2 ^ 55
   \<and> adjust_dt round_double (3 / 10 ^ 16) 0 1 (3602879701896397 / 2 ^ 55)
       = Inr (3602879701896397 / 2 ^ 55)
   \<and> py_mod round_double (1 - 0) (3602879701896397 / 2 ^ 55)
       = Inr (3602879701896395 / 2 ^ 55)
   \<and> (9 / 100 :: real) < 3602879701896395 / 2 ^ 55"
  using round_double_tenth adjust_dt_double_tenth py_mod_double_tenth by simp

text \<open>
  Claim C10, amended: in exact arithmetic, under the same conditions, a second
  adjustment returns the step of the first unchanged. In double precision this holds
  for the spec's example: \<open>k = 0.3\<close> gives \<open>0.25\<close>, and \<open>0.25\<close> gives \<open>0.25\<close>.
\<close>

theorem adjust_dt_idempotent:
  assumes "t0 < T" and "0 < k" and "0 \<le> eps"
  shows "(\<exists>k'. adjust_dt id eps t0 T k = Inr k' \<and> adjust_dt id eps t0 T k' = Inr k')
         \<and> adjust_dt round_double (3 / 10 ^ 16) 0 1 (5404319552844595 / 2 ^ 54) = Inr (1 / 4)
         \<and> adjust_dt round_double (3 / 10 ^ 16) 0 1 (1 / 4) = Inr (1 / 4)"
proof -
  from adjust_dt_divides [OF assms] obtain k' d r where
    h: "adjust_dt id eps t0 T k = Inr k'" "0 < k'" "k' \<le> k"
       "py_divmod id (T - t0) k' = Inr (d, r)" "0 \<le> r" "r \<le> eps" by blast
  have "adjust_dt id eps t0 T k' = Inr k'"
    using h(6) by (simp add: adjust_dt_def h(4))
  with h(1) show ?thesis
    using adjust_dt_double_three_tenths adjust_dt_double_quarter by blast
qed

theorem adjust_dt_idempotent_witness:
  "(0 :: real) < 1 \<and> (0 :: real) < 3 / 10 \<and> (0 :: real) \<le> 3 / 10 ^ 16
   \<and> adjust_dt id (3 / 10 ^ 16) 0 1 (3 / 10) = Inr (1 / 4)
   \<and> adjust_dt id (3 / 10 ^ 16) 0 1 (1 / 4) = Inr (1 / 4)"
proof -
  from adjust_dt_idempotent [of 0 1 "3 / 10" "3 / 10 ^ 16"]
  obtain k' where h: "adjust_dt id (3 / 10 ^ 16) 0 1 (3 / 10) = Inr k'"
      "adjust_dt id (3 / 10 ^ 16) 0 1 k' = Inr k'"
    by auto
  from h(1) have "k' = 1 / 4" unfolding adjust_dt_at_example by simp
  with h show ?thesis by auto
qed

text \<open>
  Claim C10 as stated fails in double precision: for \<open>t0 = 0\<close>, \<open>T = 1000\<close> and
  \<open>k = 400\<close> the first adjustment returns \<open>1000 / 3\<close> rounded,
  \<open>333.3333333333333\<close>. Three such steps fall short of \<open>1000\<close> by \<open>2^-44\<close>, about
  \<open>5.7e-14\<close>, which is more than \<^verbatim>\<open>DOLFIN_EPS\<close>, so the second adjustment divides
  again and returns \<open>250\<close>.
\<close>

theorem adjust_dt_idempotent_counterexample:
  "adjust_dt round_double (3 / 10 ^ 16) 0 1000 400 = Inr (5864062014805333 / 2 ^ 44)
   \<and> adjust_dt round_double (3 / 10 ^ 16) 0 1000 (5864062014805333 / 2 ^ 44) = Inr 250
   \<and> (250 :: real) \<noteq> 5864062014805333 / 2 ^ 44"
  using adjust_dt_double_1000_400 adjust_dt_double_1000_again by simp

subsection \<open>The primal time loop\<close>

lemma py_round_near_nat:
  assumes "\<bar>x - real n\<bar> < 1 / 2"
  shows "py_round x = int n"
proof (cases "real n \<le> x")
  case True
  have f: "\<lfloor>x\<rfloor> = int n" using True assms by linarith
  have "x - real n < 1 / 2" using assms by linarith
  then have "x - of_int \<lfloor>x\<rfloor> < 1 / 2" by (simp add: f)
  then show ?thesis by (simp add: py_round_def round_half_even_def Let_def f)
next
  case False
  have f: "\<lfloor>x\<rfloor> = int n - 1" using False assms by linarith
  have "x - (real n - 1) > 1 / 2" using assms by linarith
  then have "x - of_int \<lfloor>x\<rfloor> > 1 / 2" by (simp add: f)
  then show ?thesis by (simp add: py_round_def round_half_even_def Let_def f)
qed

lemma timeStepper_loop_steps:
  assumes "0 < k" and "problem_T \<noteq> 0"
  shows "\<bar>T - (t + real j * k)\<bar> < k / 2 \<Longrightarrow>
         \<exists>w' m'. timeStepper_loop id solve_step functional problem_T T k (t, w, m, c)
                   = Some (Inr (t + real j * k, w', m', c + j))"
proof (induction j arbitrary: t w m c)
  case 0
  then have "\<bar>T - t\<bar> < k / 2" by simp
  then have "\<not> t < T - k / 2" by linarith
  then show ?case
    by (subst timeStepper_loop.simps) simp
next
  case (Suc j)
  have "0 \<le> real j * k" using assms by simp
  moreover have "\<bar>T - (t + k + real j * k)\<bar> < k / 2"
    using Suc.prems by (simp add: algebra_simps)
  ultimately have lt: "t < T - k / 2" using assms by linarith
  have nxt: "\<bar>T - (t + k + real j * k)\<bar> < k / 2"
    using Suc.prems by (simp add: algebra_simps)
  from Suc.IH [OF nxt] obtain w' m' where
    "timeStepper_loop id solve_step functional problem_T T k
       (t + k, solve_step (t + k) w,
        map_option (\<lambda>v. v + k * functional (solve_step (t + k) w)) m, Suc c)
     = Some (Inr (t + k + real j * k, w', m', Suc c + j))"
    by blast
  moreover have "t + k + real j * k = t + real (Suc j) * k" by (simp add: algebra_simps)
  ultimately show ?case
    using lt assms(2) by (subst timeStepper_loop.simps) (simp add: Let_def update_def)
qed

text \<open>
  In exact arithmetic and for \<^verbatim>\<open>problem.T\<close> other than \<open>0\<close>: when \<open>T - t0\<close> is within half
  a step of \<open>n\<close> steps of size \<open>k > 0\<close>, the loop ends, it has made exactly
  \<open>round ((T - t0) / k) = n\<close> solves, and the time it has reached, \<open>t0 + n * k\<close>, is
  less than half a step away from \<open>T\<close>; it is \<open>T\<close> when the step divides \<open>T - t0\<close>
  evenly.
\<close>

lemma timeStepper_exact_step_count:
  assumes "t0 < T" and "0 < k" and "\<bar>T - t0 - real n * k\<bar> < k / 2" and "problem_T \<noteq> 0"
  shows "\<exists>w m. timeStepper id solve_step functional func problem_T t0 T k w_init
                 = Some (Inr (t0 + real n * k, w, m, n))
               \<and> py_round ((T - t0) / k) = int n
               \<and> \<bar>t0 + real n * k - T\<bar> < k / 2
               \<and> (T - t0 = real n * k \<longrightarrow> t0 + real n * k = T)"
proof -
  have start: "\<bar>T - (t0 + real n * k)\<bar> < k / 2" using assms(3) by (simp add: algebra_simps)
  have "\<exists>w m. timeStepper_loop id solve_step functional problem_T T k
                 (t0, w_init, (if func then Some (id (k * functional w_init)) else None), 0)
               = Some (Inr (t0 + real n * k, w, m, 0 + n))"
    by (rule timeStepper_loop_steps [OF assms(2,4) start])
  then have run: "\<exists>w m. timeStepper id solve_step functional func problem_T t0 T k w_init
                     = Some (Inr (t0 + real n * k, w, m, n))"
    using assms(4) by (simp add: timeStepper_def update_def)
  have "(T - t0) / k - real n = (T - t0 - real n * k) / k"
    using assms(2) by (simp add: field_simps)
  then have "\<bar>(T - t0) / k - real n\<bar> = \<bar>T - t0 - real n * k\<bar> / k"
    using assms(2) by simp
  also have "\<dots> < 1 / 2" using assms(2,3) by (simp add: pos_divide_less_eq)
  finally have rnd: "py_round ((T - t0) / k) = int n" by (rule py_round_near_nat)
  have near: "\<bar>t0 + real n * k - T\<bar> < k / 2" using start by linarith
  have "T - t0 = real n * k \<longrightarrow> t0 + real n * k = T" by auto
  with run rnd near show ?thesis by simp
qed

text \<open>
  Two runs in double precision, with a solve that adds one to the state. From
  \<open>t0 = 0\<close> to \<open>T = 1\<close> in steps of \<open>0.25\<close> the loop makes four solves and stops at
  \<open>t = 1\<close>; the functional, the state itself, accumulates to \<open>2.5\<close>. In steps of the
  double \<open>0.1\<close> it makes ten solves and stops at \<open>t = 0.9999999999999999\<close>, one unit
  in the last place below \<open>1\<close>.
\<close>

lemma timeStepper_double_quarter_steps:
  "timeStepper round_double (\<lambda>t w. w + 1) (\<lambda>w. w) True 1 0 1 (1 / 4) (0 :: real)
     = Some (Inr (1, 4, Some (5 / 2), 4))"
  by (simp add: timeStepper_def timeStepper_loop.simps update_def round_eval)

lemma timeStepper_double_tenth_steps:
  "timeStepper round_double (\<lambda>t w. w + 1) (\<lambda>w. w) False 1 0 1
     (3602879701896397 / 2 ^ 55) (0 :: real)
     = Some (Inr (9007199254740991 / 2 ^ 53, 10, None, 10))"
  by (simp add: timeStepper_def timeStepper_loop.simps update_def round_eval)

lemma timeStepper_raises_when_problem_T_zero:
  "timeStepper rd solve_step functional func 0 t T k w_init = Some (Inl ZeroDivisionError)"
  by (simp add: timeStepper_def update_def)

text \<open>
  Claim C8 says that for every \<open>T > t0\<close> and every step that divides \<open>T - t0\<close> evenly
  the loop makes exactly \<open>round ((T - t0) / k)\<close> solves. \<^verbatim>\<open>timeStepper\<close> calls
  \<^verbatim>\<open>update\<close> for the initial condition before the loop, and \<^verbatim>\<open>update\<close> divides by
  \<^verbatim>\<open>problem.T\<close>. For \<open>t0 = -1\<close>, \<open>T = 0\<close> and \<open>k = 0.25\<close>, where four solves are due,
  the code raises \<^verbatim>\<open>ZeroDivisionError\<close> before the first solve.
\<close>

theorem timeStepper_raises_at_final_time_zero:
  "timeStepper round_double (\<lambda>t w. w + 1) (\<lambda>w. w) True 0 (- 1) 0 (1 / 4) (0 :: real)
     = Some (Inl ZeroDivisionError)
   \<and> py_round (round_double (round_double (0 - (- 1)) / (1 / 4))) = 4"
  by (simp add: timeStepper_def update_def round_eval)

subsection \<open>Cell marking\<close>

lemma adapt_n_of_ge_one:
  assumes "1 \<le> rd (real n * r)" and "rd (rd (real n * r) - 1) = rd (real n * r) - 1"
  shows "adapt_n_of rd n r = \<lfloor>rd (real n * r)\<rfloor> - 1"
proof -
  have "0 \<le> rd (real n * r) - 1" using assms(1) by simp
  then have "adapt_n_of rd n r = \<lfloor>rd (real n * r) - 1\<rfloor>"
    by (simp add: adapt_n_of_def py_int_def assms(2))
  also have "\<dots> = \<lfloor>rd (real n * r)\<rfloor> - 1" by linarith
  finally show ?thesis .
qed

lemma adapt_n_of_below_one:
  assumes "0 < rd (real n * r)" and "rd (real n * r) < 1"
    and "rd (rd (real n * r) - 1) = rd (real n * r) - 1"
  shows "adapt_n_of rd n r = 0"
proof -
  have "\<lceil>rd (real n * r) - 1\<rceil> = 0" using assms(1,2) by linarith
  then show ?thesis using assms by (simp add: adapt_n_of_def py_int_def)
qed

lemma cell_markers_in_range:
  assumes "0 \<le> adapt_n_of rd (length ei) r" and "adapt_n_of rd (length ei) r < int (length ei)"
  shows "cell_markers rd r ei =
           Inr (map (\<lambda>e. \<bar>e\<bar> > rev (sort (map abs ei)) ! nat (adapt_n_of rd (length ei) r)) ei)"
  using assms by (simp add: cell_markers_def py_index_def Let_def comp_def)

lemma cell_markers_double_example:
  "adapt_n_of round_double 5 (3602879701896397 / 2 ^ 53) = 1
   \<and> cell_markers round_double (3602879701896397 / 2 ^ 53) [5, 1, 4, 2, 3]
       = Inr [True, False, False, False, False]"
  by (simp add: cell_markers_def adapt_n_of_def py_index_def round_eval)

text \<open>
  Where exact and double arithmetic part: five cells with the double \<open>0.6\<close> give
  \<^verbatim>\<open>adapt_n = 2\<close>, because \<open>5 * 0.6\<close> rounds to \<open>3\<close>, and fifty cells with the double
  \<open>0.58\<close> give \<open>27\<close>, because \<open>50 * 0.58\<close> rounds to \<open>28.999999999999996\<close>.
\<close>

lemma adapt_n_of_double_examples:
  "adapt_n_of round_double 5 (5404319552844595 / 2 ^ 53) = 2
   \<and> adapt_n_of round_double 50 (5224175567749775 / 2 ^ 53) = 27"
  by (simp add: adapt_n_of_def round_eval)

text \<open>
  Claim C4, amended: \<^verbatim>\<open>adapt_n\<close> is \<^verbatim>\<open>int(cell_count * adapt_ratio - 1)\<close> in float
  arithmetic, the difference cut off toward zero. When the subtraction of \<open>1\<close> from
  the rounded product is exact, \<^verbatim>\<open>adapt_n\<close> is the floor of the rounded product minus
  one if that product is at least \<open>1\<close>, and \<open>0\<close> if it lies strictly between \<open>0\<close> and
  \<open>1\<close>. When \<^verbatim>\<open>adapt_n\<close> is an index of the field, \<^verbatim>\<open>gamma_0\<close> is entry \<^verbatim>\<open>adapt_n\<close>
  (counted from \<open>0\<close>) of the absolute error values in descending order, and a cell is
  marked exactly when its absolute error is strictly above \<^verbatim>\<open>gamma_0\<close>. In double
  precision, for the error values \<open>[5, 1, 4, 2, 3]\<close> and ratio \<open>0.4\<close>: \<^verbatim>\<open>adapt_n = 1\<close>,
  \<^verbatim>\<open>gamma_0 = 4\<close>, and only the cell with value \<open>5\<close> is marked.
\<close>

theorem cell_markers_threshold:
  "(1 \<le> rd (real (length ei) * r)
      \<and> rd (rd (real (length ei) * r) - 1) = rd (real (length ei) * r) - 1 \<longrightarrow>
      adapt_n_of rd (length ei) r = \<lfloor>rd (real (length ei) * r)\<rfloor> - 1)
   \<and> (0 < rd (real (length ei) * r) \<and> rd (real (length ei) * r) < 1
      \<and> rd (rd (real (length ei) * r) - 1) = rd (real (length ei) * r) - 1 \<longrightarrow>
      adapt_n_of rd (length ei) r = 0)
   \<and> (0 \<le> adapt_n_of rd (length ei) r \<and> adapt_n_of rd (length ei) r < int (length ei) \<longrightarrow>
      (\<exists>markers.
         cell_markers rd r ei = Inr markers \<and> length markers = length ei
         \<and> (\<forall>c < length ei.
               markers ! c \<longleftrightarrow>
                 \<bar>ei ! c\<bar> > rev (sort (map abs ei)) ! nat (adapt_n_of rd (length ei) r))))
   \<and> adapt_n_of round_double 5 (3602879701896397 / 2 ^ 53) = 1
   \<and> rev (sort (map abs [5, 1, 4, 2, 3 :: real])) ! 1 = 4
   \<and> cell_markers round_double (3602879701896397 / 2 ^ 53) [5, 1, 4, 2, 3]
       = Inr [True, False, False, False, False]"
proof (intro conjI impI)
  show "adapt_n_of rd (length ei) r = \<lfloor>rd (real (length ei) * r)\<rfloor> - 1"
    if "1 \<le> rd (real (length ei) * r)
        \<and> rd (rd (real (length ei) * r) - 1) = rd (real (length ei) * r) - 1"
    using that adapt_n_of_ge_one by blast
  show "adapt_n_of rd (length ei) r = 0"
    if "0 < rd (real (length ei) * r) \<and> rd (real (length ei) * r) < 1
        \<and> rd (rd (real (length ei) * r) - 1) = rd (real (length ei) * r) - 1"
    using that adapt_n_of_below_one by blast
  show "\<exists>markers.
         cell_markers rd r ei = Inr markers \<and> length markers = length ei
         \<and> (\<forall>c < length ei.
               markers ! c \<longleftrightarrow>
                 \<bar>ei ! c\<bar> > rev (sort (map abs ei)) ! nat (adapt_n_of rd (length ei) r))"
    if "0 \<le> adapt_n_of rd (length ei) r \<and> adapt_n_of rd (length ei) r < int (length ei)"
    using that cell_markers_in_range [of rd ei r] by simp
  show "adapt_n_of round_double 5 (3602879701896397 / 2 ^ 53) = 1"
    using cell_markers_double_example by blast
  show "rev (sort (map abs [5, 1, 4, 2, 3 :: real])) ! 1 = 4"
    by simp
  show "cell_markers round_double (3602879701896397 / 2 ^ 53) [5, 1, 4, 2, 3]
          = Inr [True, False, False, False, False]"
    using cell_markers_double_example by blast
qed

text \<open>
  The theorem in double precision: at the five error values with the double \<open>0.4\<close>,
  where the rounded product is \<open>2\<close>, and at two error values with ratio \<open>0.25\<close>,
  where it is \<open>0.5\<close>.
\<close>

theorem cell_markers_threshold_witness:
  "1 \<le> round_double (real (length [5, 1, 4, 2, 3 :: real]) * (3602879701896397 / 2 ^ 53))
   \<and> round_double (real (length [5, 1, 4, 2, 3 :: real]) * (3602879701896397 / 2 ^ 53)) = 2
   \<and> round_double (2 - 1) = 2 - 1
   \<and> adapt_n_of round_double (length [5, 1, 4, 2, 3 :: real]) (3602879701896397 / 2 ^ 53) = 1
   \<and> (\<exists>markers. cell_markers round_double (3602879701896397 / 2 ^ 53) [5, 1, 4, 2, 3]
                    = Inr markers
         \<and> length markers = 5 \<and> (markers ! 0 \<longleftrightarrow> \<bar>5 :: real\<bar> > 4))
   \<and> round_double (real (length [3, 1 :: real]) * (1 / 4)) = 1 / 2
   \<and> round_double (1 / 2 - 1) = 1 / 2 - 1
   \<and> adapt_n_of round_double (length [3, 1 :: real]) (1 / 4) = 0"
proof -
  have p5: "round_double (real (length [5, 1, 4, 2, 3 :: real]) * (3602879701896397 / 2 ^ 53)) = 2"
    by (simp add: round_eval)
  have s5: "round_double (2 - 1) = 2 - 1" by (simp add: round_eval)
  have p2: "round_double (real (length [3, 1 :: real]) * (1 / 4)) = 1 / 2"
    by (simp add: round_eval)
  have s2: "round_double (1 / 2 - 1) = 1 / 2 - 1" by (simp add: round_eval)
  note five = cell_markers_threshold
      [of round_double "[5, 1, 4, 2, 3]" "3602879701896397 / 2 ^ 53"]
  note two = cell_markers_threshold [of round_double "[3, 1]" "1 / 4"]
  have n5: "adapt_n_of round_double (length [5, 1, 4, 2, 3 :: real])
              (3602879701896397 / 2 ^ 53) = 1"
    using five [THEN conjunct1] unfolding p5 using s5 by simp
  have "0 \<le> adapt_n_of round_double (length [5, 1, 4, 2, 3 :: real])
              (3602879701896397 / 2 ^ 53)
        \<and> adapt_n_of round_double (length [5, 1, 4, 2, 3 :: real])
              (3602879701896397 / 2 ^ 53) < int (length [5, 1, 4, 2, 3 :: real])"
    unfolding n5 by simp
  with five [THEN conjunct2, THEN conjunct2, THEN conjunct1]
  obtain markers where
    m: "cell_markers round_double (3602879701896397 / 2 ^ 53) [5, 1, 4, 2, 3] = Inr markers"
       "length markers = length [5, 1, 4, 2, 3 :: real]"
       "\<forall>c < length [5, 1, 4, 2, 3 :: real].
          markers ! c \<longleftrightarrow>
            \<bar>[5, 1, 4, 2, 3 :: real] ! c\<bar>
              > rev (sort (map abs [5, 1, 4, 2, 3 :: real]))
                  ! nat (adapt_n_of round_double (length [5, 1, 4, 2, 3 :: real])
                           (3602879701896397 / 2 ^ 53))"
    by blast
  have m0: "markers ! 0 \<longleftrightarrow> \<bar>5 :: real\<bar> > 4"
    using m(3) [rule_format, of 0] unfolding n5 by simp
  have n2: "adapt_n_of round_double (length [3, 1 :: real]) (1 / 4) = 0"
    using two [THEN conjunct2, THEN conjunct1] unfolding p2 using s2 by simp
  show ?thesis
    unfolding p5 p2 using s5 s2 n5 n2 m(1,2) m0 by auto
qed

text \<open>
  The formula of claim C4 as stated fails on small meshes: for two cells and ratio
  \<open>0.25\<close> the code computes \<^verbatim>\<open>adapt_n = int(-0.5) = 0\<close>, the claim's formula gives \<open>-1\<close>.
  With the error values \<open>[3, 1]\<close> the code therefore takes the largest value as
  threshold and marks no cell, whereas index \<open>-1\<close> would take the smallest value,
  \<open>1\<close>, and mark the first cell, whose value \<open>3\<close> is above it.
\<close>

theorem adapt_n_truncation_counterexample:
  "adapt_n_of round_double 2 (1 / 4) = 0
   \<and> \<lfloor>round_double (real 2 * (1 / 4))\<rfloor> - 1 = (- 1 :: int)
   \<and> cell_markers round_double (1 / 4) [3, 1] = Inr [False, False]
   \<and> py_index (rev (sort (map abs [3, 1 :: real]))) (- 1) = Inr 1
   \<and> (1 :: real) < \<bar>3\<bar>"
proof -
  have c: "\<lceil>- (1 / 2 :: real)\<rceil> = 0" by linarith
  show ?thesis
    by (simp add: adapt_n_of_def cell_markers_def py_index_def round_eval c)
qed

subsection \<open>Error indicators\<close>

text \<open>
  The steady branch: the field is the one array assembled from the first tape state
  and the first dual state.
\<close>

lemma build_error_indicators_steady:
  assumes "wtape \<noteq> []" and "phi \<noteq> []"
    and "length (residual_steady (wtape ! 0) (phi ! 0)) = ncells"
  shows "build_error_indicators True residual_steady ncells phi wtape
           = Inr (residual_steady (wtape ! 0) (phi ! 0))"
  using assms by (simp add: build_error_indicators_def py_index_def vec_assign_def)

text \<open>
  Claim C5 says that in the non-steady case \<^verbatim>\<open>build_error_indicators\<close> sums one
  assembled contribution per consecutive pair of tape states into the field. The loop
  that is written to do so is headed \<^verbatim>\<open>for i in xrange(len(wtape) - 1)\<close>, and Python 3
  has no \<^verbatim>\<open>xrange\<close>: for every tape and every list of dual states the non-steady
  branch raises \<^verbatim>\<open>NameError\<close> before it assembles anything. The steady half of the
  claim holds, see \<open>build_error_indicators_steady\<close>.
\<close>

theorem build_error_indicators_unsteady_raises:
  "build_error_indicators False residual_steady ncells phi wtape = Inl NameError"
  by (simp add: build_error_indicators_def)

subsection \<open>The adaptive loop\<close>

text \<open>
  When every solve succeeds with a metric above the tolerance and every refinement
  succeeds, a run with \<^verbatim>\<open>max_adaptations\<close> of at least \<open>1\<close> completes the pass on the
  initial mesh and raises \<^verbatim>\<open>TypeError\<close> in \<^verbatim>\<open>which_mesh(1)\<close> at the start of the second
  pass.
\<close>

lemma adaptivity_raises_on_second_pass:
  assumes nostep: "time_step env = None"
    and ok: "\<forall>mesh k. \<exists>m ei markers.
               adaptive_solve env mesh k = Inr (m, ei)
               \<and> adaptTOL opts < \<bar>sum_list ei\<bar>
               \<and> cell_markers rd (adaptRatio opts) ei = Inr markers"
    and many: "1 \<le> maxAdapts opts" and tol: "adaptTOL opts < 1"
  shows "adaptivity opts env rd eps mesh T t0 k = Inl TypeError"
proof -
  from ok obtain m' ei markers where
    s: "adaptive_solve env mesh k = Inr (m', ei)" "adaptTOL opts < \<bar>sum_list ei\<bar>"
       "cell_markers rd (adaptRatio opts) ei = Inr markers"
    by blast
  have c: "adaptTOL opts < condition ei m' 0" using s(2) by (simp add: condition_def)
  have first: "adaptivity_loop opts env rd eps t0 T 0 0 1 mesh k [] =
               adaptivity_loop opts env rd eps t0 T 1 m' (condition ei m' 0)
                 (refine env mesh markers) k
                 [Solving_on_mesh ''initial'', Err_est (condition ei m' 0), Refining_mesh]"
    using many tol s nostep
    by (subst adaptivity_loop.simps) (simp add: adaptive_refine_def which_mesh_def)
  have second: "adaptivity_loop opts env rd eps t0 T 1 m' (condition ei m' 0)
                  (refine env mesh markers) k
                  [Solving_on_mesh ''initial'', Err_est (condition ei m' 0), Refining_mesh]
                = Inl TypeError"
    using many c by (subst adaptivity_loop.simps) (simp add: which_mesh_def)
  show ?thesis by (simp add: adaptivity_def first second)
qed

text \<open>
  Claim C2 says that with \<^verbatim>\<open>max_adaptations = 3\<close> and a metric that never meets the
  tolerance the loop makes exactly three passes and then returns with a warning. In
  the runs below the problem is steady, every solve returns the indicator field
  \<open>[1, 1]\<close> (metric \<open>2\<close>, tolerance \<open>1e-6\<close>), and the mesh is the number of refinements
  it has been through. With \<^verbatim>\<open>max_adaptations = 3\<close> the run raises \<^verbatim>\<open>TypeError\<close>: the
  pass on the initial mesh completes, and the second pass calls \<^verbatim>\<open>which_mesh(1)\<close>, which
  subscripts the iterator returned by \<^verbatim>\<open>map\<close>. With \<^verbatim>\<open>max_adaptations = 0\<close> the run
  returns, after one pass and with the warning: the guard \<^verbatim>\<open>i <= self.maxAdapts\<close>
  admits one pass more than the option allows.
\<close>

theorem adaptivity_max3_raises_type_error:
  "adaptivity
     \<lparr>maxAdapts = 3, adaptTOL = 1 / 10 ^ 6, adaptRatio = 1 / 2, steady_state = True\<rparr>
     \<lparr>adaptive_solve = (\<lambda>mesh k. Inr (0, [1, 1])),
      refine = (\<lambda>mesh markers. Suc mesh),
      time_step = None\<rparr>
     round_double eps (0 :: nat) T t0 k
   = Inl TypeError
   \<and> adaptivity
     \<lparr>maxAdapts = 0, adaptTOL = 1 / 10 ^ 6, adaptRatio = 1 / 2, steady_state = True\<rparr>
     \<lparr>adaptive_solve = (\<lambda>mesh k. Inr (0, [1, 1])),
      refine = (\<lambda>mesh markers. Suc mesh),
      time_step = None\<rparr>
     round_double eps (0 :: nat) T t0 k
   = Inr (1, k,
          [Solving_on_mesh ''initial'', Err_est 2, Refining_mesh, Warning_reached_max 2],
          1)"
  by (simp add: adaptivity_def adaptivity_loop.simps adaptive_refine_def cell_markers_def
      adapt_n_of_def py_index_def condition_def which_mesh_def round_eval)

end
